theory Spec2Isabelle
  imports Main
begin

section \<open>Parsed JSON documents\<close>

text \<open>
  \<^verbatim>\<open>_extract_videos\<close> starts with \<^verbatim>\<open>json.loads(raw_json)\<close> (line 205) and from then on
  only works on the parsed document.  The model starts from that parsed document: the Python
  values \<^verbatim>\<open>json.loads\<close> can produce.  \<^verbatim>\<open>None\<close> is \<open>JNull\<close>, a \<^verbatim>\<open>dict\<close> is an association
  list in insertion order (the parser produces distinct keys; lookup takes the entry
  \<open>map_of\<close> finds), an \<^verbatim>\<open>int\<close> is unbounded.  The program never computes with a \<^verbatim>\<open>float\<close>,
  it can only format one, so \<open>JFloat\<close> carries the text Python prints for it.  A character
  is a code point below 256.
\<close>

datatype json =
    JNull
  | JBool bool
  | JInt int
  | JFloat string
  | JStr string
  | JArr "json list"
  | JObj "(string \<times> json) list"

text \<open>The exceptions the code can meet: the three it catches and the one it does not.\<close>

datatype error = KeyError | IndexError | TypeError | AttributeError

text \<open>A subscript is a string literal or an integer literal.\<close>

datatype key = K string | I int

text \<open>
  Python's \<^verbatim>\<open>seq[i]\<close> for a list or a string: an index from \<open>- len\<close> up to \<open>len - 1\<close> is
  accepted, a negative one counts from the end, anything else is an \<^verbatim>\<open>IndexError\<close>.
\<close>

definition seq_index :: "'a list \<Rightarrow> int \<Rightarrow> error + 'a" where
  "seq_index xs i =
     (if 0 \<le> i \<and> i < int (length xs) then Inr (xs ! nat i)
      else if i < 0 \<and> - int (length xs) \<le> i then Inr (xs ! nat (int (length xs) + i))
      else Inl IndexError)"

text \<open>
  \<^verbatim>\<open>v[k]\<close>.  A \<^verbatim>\<open>dict\<close> raises \<^verbatim>\<open>KeyError\<close> for a missing key, and an integer is never a key
  of a parsed JSON object.  A list or a string indexed by a string, and anything that is
  not subscriptable, raise \<^verbatim>\<open>TypeError\<close>.  Indexing a string gives a one-character string.
\<close>

fun getitem :: "json \<Rightarrow> key \<Rightarrow> error + json" where
  "getitem (JObj kvs) (K k) = (case map_of kvs k of None \<Rightarrow> Inl KeyError | Some v \<Rightarrow> Inr v)"
| "getitem (JObj kvs) (I i) = Inl KeyError"
| "getitem (JArr xs) (I i) = seq_index xs i"
| "getitem (JStr s) (I i) = (case seq_index s i of Inl e \<Rightarrow> Inl e | Inr c \<Rightarrow> Inr (JStr [c]))"
| "getitem (JArr xs) (K k) = Inl TypeError"
| "getitem (JStr s) (K k) = Inl TypeError"
| "getitem JNull k = Inl TypeError"
| "getitem (JBool b) k = Inl TypeError"
| "getitem (JInt n) k = Inl TypeError"
| "getitem (JFloat r) k = Inl TypeError"

text \<open>A chain \<^verbatim>\<open>v[k1][k2]...[kn]\<close>, evaluated left to right; the first exception ends it.\<close>

fun subscript :: "json \<Rightarrow> key list \<Rightarrow> error + json" where
  "subscript v [] = Inr v"
| "subscript v (k # ks) = (case getitem v k of Inl e \<Rightarrow> Inl e | Inr w \<Rightarrow> subscript w ks)"

text \<open>
  \<^verbatim>\<open>for x in v\<close>: a list gives its elements, a \<^verbatim>\<open>dict\<close> its keys, a string its characters;
  anything else is not iterable (\<^verbatim>\<open>TypeError\<close>).
\<close>

fun py_iter :: "json \<Rightarrow> error + json list" where
  "py_iter (JArr xs) = Inr xs"
| "py_iter (JObj kvs) = Inr (map (\<lambda>kv. JStr (fst kv)) kvs)"
| "py_iter (JStr s) = Inr (map (\<lambda>c. JStr [c]) s)"
| "py_iter JNull = Inl TypeError"
| "py_iter (JBool b) = Inl TypeError"
| "py_iter (JInt n) = Inl TypeError"
| "py_iter (JFloat r) = Inl TypeError"

section \<open>Formatting a value inside an f-string\<close>

text \<open>
  \<^verbatim>\<open>f"{v}"\<close> is \<^verbatim>\<open>str(v)\<close>: a string as it is, \<^verbatim>\<open>None\<close>, \<^verbatim>\<open>True\<close>, \<^verbatim>\<open>False\<close>, an integer in
  decimal, and a list or a \<^verbatim>\<open>dict\<close> through \<^verbatim>\<open>repr\<close> of its parts.
\<close>

definition digit_char :: "nat \<Rightarrow> char" where
  "digit_char n = char_of (48 + n)"

fun nat_digits :: "nat \<Rightarrow> string" where
  "nat_digits n = (if n < 10 then [digit_char n] else nat_digits (n div 10) @ [digit_char (n mod 10)])"

definition int_str :: "int \<Rightarrow> string" where
  "int_str i = (if i < 0 then CHR ''-'' # nat_digits (nat (- i)) else nat_digits (nat i))"

definition hex_char :: "nat \<Rightarrow> char" where
  "hex_char n = (if n < 10 then char_of (48 + n) else char_of (87 + n))"

text \<open>
  \<^verbatim>\<open>repr\<close> of a string: double quotes when the string has a single quote and no double
  quote, single quotes otherwise; the quote and the backslash are escaped, tab, newline and
  carriage return are written \<^verbatim>\<open>\t\<close>, \<^verbatim>\<open>\n\<close>, \<^verbatim>\<open>\r\<close>, and every other unprintable character
  (the control characters, \<open>0x7f\<close> to \<open>0xa0\<close>, and \<open>0xad\<close>) as \<^verbatim>\<open>\xhh\<close>.
\<close>

definition unprintable :: "char \<Rightarrow> bool" where
  "unprintable c =
     (of_char c < (32::nat) \<or> (127 \<le> (of_char c :: nat) \<and> (of_char c :: nat) \<le> 160)
        \<or> of_char c = (173::nat))"

definition repr_char :: "char \<Rightarrow> char \<Rightarrow> string" where
  "repr_char quote c =
     (if c = quote \<or> c = CHR 0x5C then [CHR 0x5C, c]
      else if c = CHR 0x09 then [CHR 0x5C, CHR ''t'']
      else if c = CHR 0x0A then [CHR 0x5C, CHR ''n'']
      else if c = CHR 0x0D then [CHR 0x5C, CHR ''r'']
      else if unprintable c
        then [CHR 0x5C, CHR ''x'', hex_char (of_char c div 16), hex_char (of_char c mod 16)]
      else [c])"

definition repr_str :: "string \<Rightarrow> string" where
  "repr_str s =
     (let quote = (if CHR 0x27 \<in> set s \<and> CHR 0x22 \<notin> set s then CHR 0x22 else CHR 0x27)
      in quote # concat (map (repr_char quote) s) @ [quote])"

fun join :: "string \<Rightarrow> string list \<Rightarrow> string" where
  "join sep [] = []"
| "join sep [x] = x"
| "join sep (x # y # ys) = x @ sep @ join sep (y # ys)"

fun py_repr :: "json \<Rightarrow> string" where
  "py_repr JNull = ''None''"
| "py_repr (JBool b) = (if b then ''True'' else ''False'')"
| "py_repr (JInt i) = int_str i"
| "py_repr (JFloat r) = r"
| "py_repr (JStr s) = repr_str s"
| "py_repr (JArr xs) = ''['' @ join '', '' (map py_repr xs) @ '']''"
| "py_repr (JObj kvs) =
     ''{'' @ join '', '' (map (\<lambda>kv. repr_str (fst kv) @ '': '' @ py_repr (snd kv)) kvs) @ ''}''"

definition py_format :: "json \<Rightarrow> string" where
  "py_format v = (case v of JStr s \<Rightarrow> s | _ \<Rightarrow> py_repr v)"

section \<open>The channel object\<close>

text \<open>
  The attributes \<^verbatim>\<open>Channel.__init__\<close> sets (lines 23 to 44); the ones whose Python name
  starts with an underscore carry the prefix \<open>priv\<close>.  Attributes inherited from
  \<^verbatim>\<open>Playlist\<close> live in the record's extension.  An html cache is \<^verbatim>\<open>None\<close> or a string.
\<close>

record Channel =
  channel_uri :: string
  channel_url :: string
  videos_url :: string
  shorts_url :: string
  live_url :: string
  playlists_url :: string
  community_url :: string
  featured_channels_url :: string
  about_url :: string
  priv_html_url :: string
  priv_visitor_data :: json
  priv_playlists_html :: "string option"
  priv_community_html :: "string option"
  priv_featured_channels_html :: "string option"
  priv_about_html :: "string option"

text \<open>The property \<^verbatim>\<open>html_url\<close> (line 82) reads \<^verbatim>\<open>_html_url\<close>.\<close>

definition html_url :: "'a Channel_scheme \<Rightarrow> string" where
  "html_url self = priv_html_url self"

section \<open>Building the request for the next page\<close>

text \<open>
  \<^verbatim>\<open>_build_continuation_url\<close> (lines 162 to 194).  \<^verbatim>\<open>self.yt_api_key\<close> is a property
  of \<^verbatim>\<open>Playlist\<close>; its value is the parameter \<open>yt_api_key\<close>.  The result is the url, the
  headers and the body of the POST request, the two dictionaries in insertion order.
\<close>

definition build_continuation_url ::
  "json \<Rightarrow> 'a Channel_scheme \<Rightarrow> string \<Rightarrow> string \<times> (string \<times> string) list \<times> json" where
  "build_continuation_url yt_api_key self continuation =
     (''https://www.youtube.com/youtubei/v1/browse?key='' @ py_format yt_api_key,
      [(''X-YouTube-Client-Name'', ''1''),
       (''X-YouTube-Client-Version'', ''2.20200720.00.02'')],
      JObj [(''continuation'', JStr continuation),
            (''context'', JObj [(''client'', JObj
               [(''clientName'', JStr ''WEB''),
                (''visitorData'', priv_visitor_data self),
                (''clientVersion'', JStr ''2.20200720.00.02'')])])])"

section \<open>Locating the list of items\<close>

text \<open>
  \<^verbatim>\<open>s.rsplit("/", maxsplit=1)\<close>: the string itself when it has no slash, otherwise what
  is before the last slash and what is after it.  The list is never empty, so \<^verbatim>\<open>[-1]\<close>
  is its last element.  Only a string has the method: on any other value the attribute
  lookup raises \<^verbatim>\<open>AttributeError\<close>.
\<close>

definition rsplit1 :: "string \<Rightarrow> string list" where
  "rsplit1 s =
     (if CHR ''/'' \<in> set s
      then [rev (tl (dropWhile (\<lambda>c. c \<noteq> CHR ''/'') (rev s))),
            rev (takeWhile (\<lambda>c. c \<noteq> CHR ''/'') (rev s))]
      else [s])"

fun attr_rsplit :: "json \<Rightarrow> error + string list" where
  "attr_rsplit (JStr s) = Inr (rsplit1 s)"
| "attr_rsplit v = Inl AttributeError"

text \<open>
  The loop of lines 211 to 222 over the tabs: \<open>active_tab\<close> starts as the empty \<^verbatim>\<open>dict\<close>
  and becomes the first tab whose url ends in the same segment as \<^verbatim>\<open>self.html_url\<close>.
\<close>

fun find_active_tab :: "'a Channel_scheme \<Rightarrow> json list \<Rightarrow> error + json" where
  "find_active_tab self [] = Inr (JObj [])"
| "find_active_tab self (tab # tabs) =
     (case subscript tab [K ''tabRenderer'', K ''endpoint'', K ''commandMetadata'',
                          K ''webCommandMetadata'', K ''url''] of
        Inl e \<Rightarrow> Inl e
      | Inr tab_url \<Rightarrow>
          (case attr_rsplit tab_url of
             Inl e \<Rightarrow> Inl e
           | Inr parts \<Rightarrow>
               if last parts = last (rsplit1 (html_url self)) then Inr tab
               else find_active_tab self tabs))"

text \<open>Lines 210 to 227: the grid of the active tab.\<close>

definition active_tab_videos :: "'a Channel_scheme \<Rightarrow> json \<Rightarrow> error + json" where
  "active_tab_videos self initial_data =
     (case subscript initial_data
             [K ''contents'', K ''twoColumnBrowseResultsRenderer'', K ''tabs''] of
        Inl e \<Rightarrow> Inl e
      | Inr tabs \<Rightarrow>
          (case py_iter tabs of
             Inl e \<Rightarrow> Inl e
           | Inr ts \<Rightarrow>
               (case find_active_tab self ts of
                  Inl e \<Rightarrow> Inl e
                | Inr active_tab \<Rightarrow>
                    subscript active_tab
                      [K ''tabRenderer'', K ''content'', K ''richGridRenderer'', K ''contents''])))"

text \<open>Lines 231 to 233: the visitor data at the root of the document.\<close>

definition visitor_data_node :: "json \<Rightarrow> error + json" where
  "visitor_data_node initial_data =
     subscript initial_data
       [K ''responseContext'', K ''webResponseContextExtensionData'', K ''ytConfigData'',
        K ''visitorData'']"

text \<open>
  The body of the first \<^verbatim>\<open>try\<close> (lines 210 to 233): the grid, then the visitor data.  It
  gives both or the first exception.
\<close>

definition full_page :: "'a Channel_scheme \<Rightarrow> json \<Rightarrow> error + json \<times> json" where
  "full_page self initial_data =
     (case active_tab_videos self initial_data of
        Inl e \<Rightarrow> Inl e
      | Inr videos \<Rightarrow>
          (case visitor_data_node initial_data of
             Inl e \<Rightarrow> Inl e
           | Inr vd \<Rightarrow> Inr (videos, vd)))"

text \<open>The body of the second \<^verbatim>\<open>try\<close> (lines 239 to 242).\<close>

definition wrapped_continuation :: "json \<Rightarrow> error + json" where
  "wrapped_continuation initial_data =
     subscript initial_data
       [I 1, K ''response'', K ''onResponseReceivedActions'', I 0,
        K ''appendContinuationItemsAction'', K ''continuationItems'']"

text \<open>The body of the third \<^verbatim>\<open>try\<close> (lines 248 to 251).\<close>

definition bare_continuation :: "json \<Rightarrow> error + json" where
  "bare_continuation initial_data =
     subscript initial_data
       [K ''onResponseReceivedActions'', I 0, K ''appendContinuationItemsAction'',
        K ''continuationItems'']"

text \<open>What \<^verbatim>\<open>except (KeyError, IndexError, TypeError)\<close> and \<^verbatim>\<open>except (KeyError, IndexError)\<close> catch.\<close>

fun caught3 :: "error \<Rightarrow> bool" where
  "caught3 KeyError = True"
| "caught3 IndexError = True"
| "caught3 TypeError = True"
| "caught3 AttributeError = False"

fun caught2 :: "error \<Rightarrow> bool" where
  "caught2 KeyError = True"
| "caught2 IndexError = True"
| "caught2 TypeError = False"
| "caught2 AttributeError = False"

text \<open>
  Lines 208 to 254, the three nested \<^verbatim>\<open>try\<close> blocks.  The outcome is an exception that
  leaves the function (\<open>Uncaught\<close>), the early \<^verbatim>\<open>return [], None\<close> after \<^verbatim>\<open>logger.info(p)\<close>
  (\<open>NotFound p\<close>), or the list of items together with the channel object, whose
  \<^verbatim>\<open>_visitor_data\<close> only the first block assigns, as its last statement.
\<close>

datatype 'a located = Uncaught error | NotFound error | Found json 'a

definition locate :: "'a Channel_scheme \<Rightarrow> json \<Rightarrow> 'a Channel_scheme located" where
  "locate self initial_data =
     (case full_page self initial_data of
        Inr (videos, vd) \<Rightarrow> Found videos (self\<lparr>priv_visitor_data := vd\<rparr>)
      | Inl e1 \<Rightarrow>
          if \<not> caught3 e1 then Uncaught e1
          else (case wrapped_continuation initial_data of
                  Inr important_content \<Rightarrow> Found important_content self
                | Inl e2 \<Rightarrow>
                    if \<not> caught3 e2 then Uncaught e2
                    else (case bare_continuation initial_data of
                            Inr important_content \<Rightarrow> Found important_content self
                          | Inl p \<Rightarrow> if \<not> caught3 p then Uncaught p else NotFound p)))"

section \<open>Extracting the identifiers\<close>

text \<open>
  Lines 256 to 263.  \<open>continuation_token\<close> is the chain of subscripts on the last item;
  when it succeeds the last item is sliced off (\<^verbatim>\<open>videos[:-1]\<close>), when it raises
  \<^verbatim>\<open>KeyError\<close> or \<^verbatim>\<open>IndexError\<close> the continuation is \<^verbatim>\<open>None\<close> and the items stay.  A
  \<^verbatim>\<open>TypeError\<close> is not caught here.  The slice of a \<^verbatim>\<open>dict\<close> raises, but is never reached:
  a \<^verbatim>\<open>dict\<close> has no key \<open>-1\<close>.
\<close>

definition continuation_token :: "json \<Rightarrow> error + json" where
  "continuation_token videos =
     subscript videos
       [I (- 1), K ''continuationItemRenderer'', K ''continuationEndpoint'',
        K ''continuationCommand'', K ''token'']"

fun drop_last :: "json \<Rightarrow> error + json" where
  "drop_last (JArr xs) = Inr (JArr (butlast xs))"
| "drop_last (JStr s) = Inr (JStr (butlast s))"
| "drop_last v = Inl TypeError"

definition strip_continuation :: "json \<Rightarrow> error + json \<times> json" where
  "strip_continuation videos =
     (case continuation_token videos of
        Inr continuation \<Rightarrow>
          (case drop_last videos of
             Inr videos' \<Rightarrow> Inr (continuation, videos')
           | Inl e \<Rightarrow> if caught2 e then Inr (JNull, videos) else Inl e)
      | Inl e \<Rightarrow> if caught2 e then Inr (JNull, videos) else Inl e)"

text \<open>
  One of the two loops of lines 269 to 280: every item's identifier under the renderer
  \<open>r\<close> is appended to the list \<^verbatim>\<open>videos_url\<close> (here \<open>urls\<close>), until an item raises.  The list as it stands then
  is returned with the exception: what was appended stays appended.
\<close>

definition video_id :: "string \<Rightarrow> json \<Rightarrow> error + json" where
  "video_id r x = subscript x [K ''richItemRenderer'', K ''content'', K r, K ''videoId'']"

fun append_ids :: "string \<Rightarrow> json list \<Rightarrow> string list \<Rightarrow> error option \<times> string list" where
  "append_ids r [] urls = (None, urls)"
| "append_ids r (x # xs) urls =
     (case video_id r x of
        Inl e \<Rightarrow> (Some e, urls)
      | Inr v \<Rightarrow> append_ids r xs (urls @ [''/watch?v='' @ py_format v]))"

definition loop_ids :: "string \<Rightarrow> json \<Rightarrow> string list \<Rightarrow> error option \<times> string list" where
  "loop_ids r videos urls =
     (case py_iter videos of
        Inl e \<Rightarrow> (Some e, urls)
      | Inr xs \<Rightarrow> append_ids r xs urls)"

text \<open>
  Lines 266 to 280: the loop under \<^verbatim>\<open>videoRenderer\<close>; when it raises one of the three
  caught exceptions, the loop under \<^verbatim>\<open>reelItemRenderer\<close> runs over all the items again,
  on the same list, and nothing catches what it raises.
\<close>

definition collect_ids :: "json \<Rightarrow> error + string list" where
  "collect_ids videos =
     (case loop_ids ''videoRenderer'' videos [] of
        (None, urls) \<Rightarrow> Inr urls
      | (Some e, urls) \<Rightarrow>
          if \<not> caught3 e then Inl e
          else (case loop_ids ''reelItemRenderer'' videos urls of
                  (None, urls') \<Rightarrow> Inr urls'
                | (Some e', urls') \<Rightarrow> Inl e'))"

text \<open>
  Modelled from the spec: \<^verbatim>\<open>uniqueify\<close> is imported from \<^verbatim>\<open>pytube.helpers\<close>, which is not
  among the sources.  The spec: deduplicate the identifier sequence preserving first
  occurrence; duplicates are removed, keeping only the first occurrence.
\<close>

fun uniqueify_seen :: "'a list \<Rightarrow> 'a list \<Rightarrow> 'a list" where
  "uniqueify_seen seen [] = []"
| "uniqueify_seen seen (x # xs) =
     (if x \<in> set seen then uniqueify_seen seen xs else x # uniqueify_seen (x # seen) xs)"

definition uniqueify :: "'a list \<Rightarrow> 'a list" where
  "uniqueify duped_list = uniqueify_seen [] duped_list"

text \<open>Lines 256 to 283: everything after the list of items has been located.\<close>

definition extract_located :: "json \<Rightarrow> error + string list \<times> json" where
  "extract_located videos =
     (case strip_continuation videos of
        Inl e \<Rightarrow> Inl e
      | Inr (continuation, videos') \<Rightarrow>
          (case collect_ids videos' of
             Inl e \<Rightarrow> Inl e
           | Inr urls \<Rightarrow> Inr (uniqueify urls, continuation)))"

text \<open>
  \<^verbatim>\<open>_extract_videos\<close> (lines 196 to 283) on the parsed document: what it returns or
  raises, the channel object afterwards, and what was passed to \<^verbatim>\<open>logger.info\<close>.
\<close>

definition extract_videos ::
  "'a Channel_scheme \<Rightarrow> json \<Rightarrow> (error + string list \<times> json) \<times> 'a Channel_scheme \<times> error list" where
  "extract_videos self initial_data =
     (case locate self initial_data of
        Uncaught e \<Rightarrow> (Inl e, self, [])
      | NotFound p \<Rightarrow> (Inr ([], JNull), self, [p])
      | Found videos self' \<Rightarrow> (extract_located videos, self', []))"

section \<open>The item variants and the order of first occurrence\<close>

text \<open>
  The spec's item variants, tagged by which key is present.  A full-video item has a
  \<^verbatim>\<open>videoId\<close> under \<^verbatim>\<open>videoRenderer\<close> and neither the key \<^verbatim>\<open>reelItemRenderer\<close> nor the
  key \<^verbatim>\<open>continuationItemRenderer\<close>; a short-form item likewise, with the two renderers
  exchanged; a continuation marker is an item from which the chain of lines 257 to 259
  reads a token.
\<close>

definition renderer :: "string \<Rightarrow> json \<Rightarrow> error + json" where
  "renderer r x = subscript x [K ''richItemRenderer'', K ''content'', K r]"

definition marker_token :: "json \<Rightarrow> error + json" where
  "marker_token x =
     subscript x [K ''continuationItemRenderer'', K ''continuationEndpoint'',
                  K ''continuationCommand'', K ''token'']"

definition full_video_item :: "json \<Rightarrow> bool" where
  "full_video_item x \<longleftrightarrow>
     \<not> isl (video_id ''videoRenderer'' x) \<and> renderer ''reelItemRenderer'' x = Inl KeyError
     \<and> getitem x (K ''continuationItemRenderer'') = Inl KeyError"

definition short_form_item :: "json \<Rightarrow> bool" where
  "short_form_item x \<longleftrightarrow>
     \<not> isl (video_id ''reelItemRenderer'' x) \<and> renderer ''videoRenderer'' x = Inl KeyError
     \<and> getitem x (K ''continuationItemRenderer'') = Inl KeyError"

definition continuation_marker :: "json \<Rightarrow> bool" where
  "continuation_marker x \<longleftrightarrow> \<not> isl (marker_token x)"

text \<open>The string one iteration of a loop appends for the item \<open>x\<close>.\<close>

definition watch_url :: "string \<Rightarrow> json \<Rightarrow> string" where
  "watch_url r x = ''/watch?v='' @ py_format (projr (video_id r x))"

text \<open>The position at which \<open>x\<close> first occurs in \<open>xs\<close>.\<close>

definition first_index :: "'a list \<Rightarrow> 'a \<Rightarrow> nat" where
  "first_index xs x = length (takeWhile (\<lambda>y. y \<noteq> x) xs)"

section \<open>Example documents\<close>

text \<open>A channel object as \<^verbatim>\<open>Channel.__init__\<close> leaves it, on the videos tab.\<close>

definition example_channel :: Channel where
  "example_channel =
     \<lparr>channel_uri = ''/c/x'',
      channel_url = ''https://www.youtube.com/c/x'',
      videos_url = ''https://www.youtube.com/c/x/videos'',
      shorts_url = ''https://www.youtube.com/c/x/shorts'',
      live_url = ''https://www.youtube.com/c/x/streams'',
      playlists_url = ''https://www.youtube.com/c/x/playlists'',
      community_url = ''https://www.youtube.com/c/x/community'',
      featured_channels_url = ''https://www.youtube.com/c/x/channels'',
      about_url = ''https://www.youtube.com/c/x/about'',
      priv_html_url = ''https://www.youtube.com/c/x/videos'',
      priv_visitor_data = JNull,
      priv_playlists_html = None,
      priv_community_html = None,
      priv_featured_channels_html = None,
      priv_about_html = None\<rparr>"

text \<open>\<^verbatim>\<open>{"richItemRenderer": {"content": {r: {"videoId": i}}}}\<close>\<close>

definition item :: "string \<Rightarrow> string \<Rightarrow> json" where
  "item r i =
     JObj [(''richItemRenderer'', JObj [(''content'', JObj [(r, JObj [(''videoId'', JStr i)])])])]"

text \<open>
  \<^verbatim>\<open>{"continuationItemRenderer": {"continuationEndpoint":
      {"continuationCommand": {"token": t}}}}\<close>
\<close>

definition marker_item :: "string \<Rightarrow> json" where
  "marker_item t =
     JObj [(''continuationItemRenderer'', JObj [(''continuationEndpoint'',
       JObj [(''continuationCommand'', JObj [(''token'', JStr t)])])])]"

text \<open>
  \<^verbatim>\<open>{"tabRenderer": {"endpoint": {"commandMetadata": {"webCommandMetadata": {"url": u}}},
      "content": {"richGridRenderer": {"contents": items}}}}\<close>
\<close>

definition tab_item :: "json \<Rightarrow> json list \<Rightarrow> json" where
  "tab_item u items =
     JObj [(''tabRenderer'', JObj
       [(''endpoint'', JObj [(''commandMetadata'', JObj [(''webCommandMetadata'',
           JObj [(''url'', u)])])]),
        (''content'', JObj [(''richGridRenderer'', JObj [(''contents'', JArr items)])])])]"

text \<open>\<^verbatim>\<open>{"contents": {"twoColumnBrowseResultsRenderer": {"tabs": tabs}}, ...rest}\<close>\<close>

definition page_doc :: "json list \<Rightarrow> (string \<times> json) list \<Rightarrow> json" where
  "page_doc tabs rest =
     JObj ((''contents'', JObj [(''twoColumnBrowseResultsRenderer'', JObj [(''tabs'', JArr tabs)])])
           # rest)"

text \<open>
  \<^verbatim>\<open>"responseContext": {"webResponseContextExtensionData":
      {"ytConfigData": {"visitorData": v}}}\<close>
\<close>

definition response_context :: "string \<Rightarrow> string \<times> json" where
  "response_context v =
     (''responseContext'', JObj [(''webResponseContextExtensionData'',
        JObj [(''ytConfigData'', JObj [(''visitorData'', JStr v)])])])"

text \<open>
  \<^verbatim>\<open>{"onResponseReceivedActions":
      [{"appendContinuationItemsAction": {"continuationItems": items}}]}\<close>
\<close>

definition bare_doc :: "json list \<Rightarrow> json" where
  "bare_doc items =
     JObj [(''onResponseReceivedActions'',
       JArr [JObj [(''appendContinuationItemsAction'', JObj [(''continuationItems'', JArr items)])]])]"

text \<open>\<^verbatim>\<open>[null, {"response": bare}]\<close>\<close>

definition wrapped_doc :: "json list \<Rightarrow> json" where
  "wrapped_doc items = JArr [JNull, JObj [(''response'', bare_doc items)]]"

text \<open>
  A full page on the videos tab: a first tab that is not the active one, then the videos
  tab with three videos, one of them twice, and a trailing continuation marker.
\<close>

definition videos_page :: "(string \<times> json) list \<Rightarrow> json" where
  "videos_page rest =
     page_doc
       [tab_item (JStr ''/c/x/featured'') [],
        tab_item (JStr ''/c/x/videos'')
          [item ''videoRenderer'' ''a'', item ''videoRenderer'' ''b'',
           item ''videoRenderer'' ''a'', marker_item ''TOKEN'']]
       rest"

text \<open>A page whose only tab has the number 5 where the url is expected.\<close>

definition numeric_url_page :: json where
  "numeric_url_page = page_doc [tab_item (JInt 5) [item ''videoRenderer'' ''a'']] []"

text \<open>An item with a renderer that holds no \<^verbatim>\<open>videoId\<close>: \<^verbatim>\<open>{"richItemRenderer": {"content": {r: {}}}}\<close>\<close>

definition item_without_id :: "string \<Rightarrow> json" where
  "item_without_id r = JObj [(''richItemRenderer'', JObj [(''content'', JObj [(r, JObj [])])])]"

text \<open>A bare continuation whose only item has a renderer of a third kind, then a marker.\<close>

definition unknown_page :: json where
  "unknown_page = bare_doc [item ''playlistRenderer'' ''p'', marker_item ''TOKEN'']"

text \<open>A bare continuation of videos, the second of them without its \<^verbatim>\<open>videoId\<close>.\<close>

definition broken_item_page :: json where
  "broken_item_page =
     bare_doc [item ''videoRenderer'' ''a'', item_without_id ''videoRenderer'',
               item ''videoRenderer'' ''b'', marker_item ''TOKEN'']"

text \<open>A bare continuation whose last item is \<^verbatim>\<open>null\<close>.\<close>

definition null_last_page :: json where
  "null_last_page = bare_doc [item ''videoRenderer'' ''a'', JNull]"

text \<open>A wrapped continuation of short-form items, one of them twice, and no marker.\<close>

definition shorts_page :: json where
  "shorts_page =
     wrapped_doc [item ''reelItemRenderer'' ''s1'', item ''reelItemRenderer'' ''s2'',
                  item ''reelItemRenderer'' ''s1'']"

section \<open>Basic facts\<close>

lemmas example_defs = example_channel_def item_def marker_item_def tab_item_def page_doc_def
  response_context_def bare_doc_def wrapped_doc_def videos_page_def numeric_url_page_def
  item_without_id_def unknown_page_def broken_item_page_def null_last_page_def shorts_page_def

lemmas model_defs = extract_videos_def locate_def full_page_def active_tab_videos_def
  visitor_data_node_def wrapped_continuation_def bare_continuation_def html_url_def rsplit1_def
  extract_located_def strip_continuation_def continuation_token_def collect_ids_def loop_ids_def
  video_id_def uniqueify_def seq_index_def py_format_def renderer_def marker_token_def

subsection \<open>Which exceptions a chain of subscripts can raise\<close>

lemma seq_index_error: "seq_index xs i = Inl e \<Longrightarrow> e = IndexError"
  by (simp add: seq_index_def split: if_splits)

lemma getitem_error: "getitem v k = Inl e \<Longrightarrow> e = KeyError \<or> e = IndexError \<or> e = TypeError"
  by (cases "(v, k)" rule: getitem.cases)
     (auto split: option.splits sum.splits dest: seq_index_error)

lemma getitem_K_error: "getitem v (K k) = Inl e \<Longrightarrow> e = KeyError \<or> e = TypeError"
  by (cases v) (auto split: option.splits)

lemma subscript_error:
  "subscript v ks = Inl e \<Longrightarrow> e = KeyError \<or> e = IndexError \<or> e = TypeError"
proof (induction ks arbitrary: v)
  case Nil
  then show ?case by simp
next
  case (Cons k ks)
  show ?case
  proof (cases "getitem v k")
    case (Inl e')
    with Cons.prems have "e' = e" by simp
    with Inl show ?thesis using getitem_error by blast
  next
    case (Inr w)
    with Cons.prems have "subscript w ks = Inl e" by simp
    then show ?thesis by (rule Cons.IH)
  qed
qed

lemma subscript_caught3: "subscript v ks = Inl e \<Longrightarrow> caught3 e"
  using subscript_error [of v ks e] by auto

lemma getitem_K_obj: "getitem v (K k) = Inr w \<Longrightarrow> \<exists>kvs. v = JObj kvs"
  by (cases v) simp_all

lemma subscript_K_obj: "subscript v (K k # ks) = Inr w \<Longrightarrow> \<exists>kvs. v = JObj kvs"
  by (cases "getitem v (K k)") (auto dest: getitem_K_obj)

lemma video_id_error:
  assumes "video_id r x = Inl e"
  shows "e = KeyError \<or> e = TypeError"
  using assms unfolding video_id_def
  by (auto split: sum.splits dest: getitem_K_error)

lemma renderer_video_id: "renderer r x = Inl e \<Longrightarrow> video_id r x = Inl e"
  by (auto simp: renderer_def video_id_def split: sum.splits)

lemma full_video_item_reel: "full_video_item x \<Longrightarrow> video_id ''reelItemRenderer'' x = Inl KeyError"
  by (simp add: full_video_item_def renderer_video_id)

lemma short_form_item_video: "short_form_item x \<Longrightarrow> video_id ''videoRenderer'' x = Inl KeyError"
  by (simp add: short_form_item_def renderer_video_id)

subsection \<open>The three shapes\<close>

lemma wrapped_continuation_obj: "wrapped_continuation (JObj kvs) = Inl KeyError"
  by (simp add: wrapped_continuation_def)

lemma wrapped_continuation_caught3: "wrapped_continuation d = Inl p \<Longrightarrow> caught3 p"
  unfolding wrapped_continuation_def by (rule subscript_caught3)

lemma bare_continuation_caught3: "bare_continuation d = Inl p \<Longrightarrow> caught3 p"
  unfolding bare_continuation_def by (rule subscript_caught3)

lemma visitor_data_node_caught3: "visitor_data_node d = Inl p \<Longrightarrow> caught3 p"
  unfolding visitor_data_node_def by (rule subscript_caught3)

lemma active_tab_videos_obj:
  assumes "active_tab_videos self d = Inr videos"
  shows "\<exists>kvs. d = JObj kvs"
proof (cases "subscript d [K ''contents'', K ''twoColumnBrowseResultsRenderer'', K ''tabs'']")
  case (Inl e)
  with assms show ?thesis
    by (simp add: active_tab_videos_def del: subscript.simps)
next
  case (Inr tabs)
  then show ?thesis by (rule subscript_K_obj)
qed

text \<open>
  When each of the three \<^verbatim>\<open>try\<close> blocks ends in an exception its handler catches, the
  function logs the third exception and returns the empty page.
\<close>

lemma no_shape_returns_empty:
  assumes "full_page self d = Inl e1" and "caught3 e1"
      and "wrapped_continuation d = Inl e2" and "bare_continuation d = Inl p"
  shows "extract_videos self d = (Inr ([], JNull), self, [p])"
  using assms wrapped_continuation_caught3 [OF assms(3)] bare_continuation_caught3 [OF assms(4)]
  by (simp add: extract_videos_def locate_def)

lemma locate_frame:
  "locate self d = Found videos self' \<Longrightarrow>
     (\<exists>vd. full_page self d = Inr (videos, vd) \<and> self' = self\<lparr>priv_visitor_data := vd\<rparr>)
     \<or> (isl (full_page self d) \<and> self' = self)"
  by (auto simp: locate_def split: sum.splits if_splits)

subsection \<open>The trailing continuation marker\<close>

lemma continuation_token_list:
  "continuation_token (JArr xs) = (if xs = [] then Inl IndexError else marker_token (last xs))"
proof (cases "xs = []")
  case True
  then show ?thesis
    by (simp add: continuation_token_def seq_index_def)
next
  case False
  then have "seq_index xs (- 1) = Inr (last xs)"
    by (cases xs rule: rev_cases) (auto simp: seq_index_def nth_append)
  with False show ?thesis
    by (simp add: continuation_token_def marker_token_def)
qed

text \<open>The slice \<^verbatim>\<open>videos[:-1]\<close> is only reached on a list that is not empty.\<close>

lemma continuation_token_is_list:
  assumes "continuation_token videos = Inr tok"
  shows "\<exists>xs. videos = JArr xs \<and> xs \<noteq> []"
proof (cases videos)
  case (JArr xs)
  with assms show ?thesis by (auto simp: continuation_token_list split: if_splits)
next
  case (JStr s)
  with assms show ?thesis
    by (auto simp: continuation_token_def split: sum.splits)
qed (use assms in \<open>simp_all add: continuation_token_def\<close>)

lemma strip_continuation_empty: "strip_continuation (JArr []) = Inr (JNull, JArr [])"
  by (simp add: strip_continuation_def continuation_token_list)

lemma strip_continuation_marker:
  assumes "xs \<noteq> []" and "marker_token (last xs) = Inr tok"
  shows "strip_continuation (JArr xs) = Inr (tok, JArr (butlast xs))"
  using assms by (simp add: strip_continuation_def continuation_token_list)

lemma strip_continuation_no_marker:
  assumes "xs \<noteq> []" and "marker_token (last xs) = Inl e" and "caught2 e"
  shows "strip_continuation (JArr xs) = Inr (JNull, JArr xs)"
  using assms by (simp add: strip_continuation_def continuation_token_list)

lemma strip_continuation_type_error:
  assumes "xs \<noteq> []" and "marker_token (last xs) = Inl TypeError"
  shows "strip_continuation (JArr xs) = Inl TypeError"
  using assms by (simp add: strip_continuation_def continuation_token_list)

lemma marker_token_no_key:
  "getitem x (K ''continuationItemRenderer'') = Inl KeyError \<Longrightarrow> marker_token x = Inl KeyError"
  by (simp add: marker_token_def)

lemma strip_continuation_short_forms:
  assumes "\<forall>x\<in>set items. short_form_item x"
  shows "strip_continuation (JArr items) = Inr (JNull, JArr items)"
proof (cases "items = []")
  case True
  then show ?thesis by (simp add: strip_continuation_empty)
next
  case False
  then have "last items \<in> set items" by simp
  with assms have "short_form_item (last items)" by blast
  then have "marker_token (last items) = Inl KeyError"
    by (simp add: short_form_item_def marker_token_no_key)
  with False show ?thesis
    by (simp add: strip_continuation_no_marker)
qed

text \<open>
  A list of full-video items or of short-form items around one other item, with at most
  one continuation marker at its end: the marker, when there is one, is stripped and
  nothing else; when the other item is the last of the list, provided the chain of lines
  257 to 259 raises \<^verbatim>\<open>KeyError\<close> on it.
\<close>

lemma strip_continuation_around_bad:
  assumes trailer: "trailer = [] \<or> (\<exists>m. trailer = [m] \<and> continuation_marker m)"
      and others: "(\<forall>x\<in>set (pre @ post). full_video_item x)
                   \<or> (\<forall>x\<in>set (pre @ post). short_form_item x)"
      and last: "post = [] \<and> trailer = [] \<longrightarrow> marker_token bad = Inl KeyError"
  shows "\<exists>tok. strip_continuation (JArr (pre @ [bad] @ post @ trailer))
                 = Inr (tok, JArr (pre @ [bad] @ post))"
proof (cases "trailer = []")
  case False
  with trailer obtain m where m: "trailer = [m]" and "continuation_marker m" by blast
  then obtain tok where "marker_token m = Inr tok"
    by (cases "marker_token m") (auto simp: continuation_marker_def)
  then have "strip_continuation (JArr ((pre @ [bad] @ post) @ [m]))
               = Inr (tok, JArr (butlast ((pre @ [bad] @ post) @ [m])))"
    by (intro strip_continuation_marker) simp_all
  then have "strip_continuation (JArr ((pre @ [bad] @ post) @ [m]))
               = Inr (tok, JArr (pre @ [bad] @ post))"
    by (simp only: butlast_snoc)
  with m show ?thesis by simp
next
  case True
  have "marker_token (last (pre @ [bad] @ post)) = Inl KeyError"
  proof (cases "post = []")
    case True
    with \<open>trailer = []\<close> last show ?thesis by simp
  next
    case False
    then have "last post \<in> set (pre @ post)" by simp
    with others have "getitem (last post) (K ''continuationItemRenderer'') = Inl KeyError"
      by (auto simp: full_video_item_def short_form_item_def)
    with False show ?thesis by (simp add: marker_token_no_key)
  qed
  with strip_continuation_no_marker [of "pre @ [bad] @ post" KeyError] True
  show ?thesis by simp
qed

subsection \<open>The two loops\<close>

lemma append_ids_ok:
  "\<forall>x\<in>set xs. \<not> isl (video_id r x) \<Longrightarrow> append_ids r xs acc = (None, acc @ map (watch_url r) xs)"
proof (induction xs arbitrary: acc)
  case Nil
  show ?case by simp
next
  case (Cons x xs)
  from Cons.prems obtain v where v: "video_id r x = Inr v"
    by (cases "video_id r x") auto
  from Cons.prems have "\<forall>y\<in>set xs. \<not> isl (video_id r y)" by simp
  from Cons.IH [OF this] v show ?case
    by (simp add: watch_url_def)
qed

lemma append_ids_prefix_ok:
  "\<forall>x\<in>set pre. \<not> isl (video_id r x) \<Longrightarrow>
     append_ids r (pre @ rest) acc = append_ids r rest (acc @ map (watch_url r) pre)"
proof (induction pre arbitrary: acc)
  case Nil
  show ?case by simp
next
  case (Cons x pre)
  from Cons.prems obtain v where v: "video_id r x = Inr v"
    by (cases "video_id r x") auto
  from Cons.prems have "\<forall>y\<in>set pre. \<not> isl (video_id r y)" by simp
  from Cons.IH [OF this] v show ?case
    by (simp add: watch_url_def)
qed

lemma append_ids_fails:
  "\<exists>x\<in>set xs. isl (video_id r x) \<Longrightarrow>
     \<exists>e acc'. append_ids r xs acc = (Some e, acc') \<and> (e = KeyError \<or> e = TypeError)"
proof (induction xs arbitrary: acc)
  case Nil
  then show ?case by simp
next
  case (Cons x xs)
  show ?case
  proof (cases "video_id r x")
    case (Inl e)
    then show ?thesis using video_id_error [OF Inl] by simp
  next
    case (Inr v)
    with Cons.prems have "\<exists>y\<in>set xs. isl (video_id r y)" by auto
    from Cons.IH [OF this] Inr show ?thesis by simp
  qed
qed

lemma append_ids_first_fails:
  "isl (video_id r x) \<Longrightarrow> append_ids r (x # xs) acc = (Some (projl (video_id r x)), acc)"
  by (cases "video_id r x") auto

lemma append_ids_video_on_short_forms:
  assumes "\<forall>x\<in>set items. short_form_item x"
  shows "append_ids ''videoRenderer'' items [] = (if items = [] then None else Some KeyError, [])"
proof (cases items)
  case Nil
  then show ?thesis by simp
next
  case (Cons x xs)
  with assms have "video_id ''videoRenderer'' x = Inl KeyError"
    by (simp add: short_form_item_video)
  with Cons show ?thesis by simp
qed

lemma append_ids_reel_on_short_forms:
  assumes "\<forall>x\<in>set items. short_form_item x"
  shows "append_ids ''reelItemRenderer'' items [] = (None, map (watch_url ''reelItemRenderer'') items)"
proof -
  from assms have "\<forall>x\<in>set items. \<not> isl (video_id ''reelItemRenderer'' x)"
    by (simp add: short_form_item_def)
  from append_ids_ok [OF this, of "[]"] show ?thesis by simp
qed

lemma collect_ids_both_fail:
  assumes "\<exists>x\<in>set items. isl (video_id ''videoRenderer'' x)"
      and "\<exists>x\<in>set items. isl (video_id ''reelItemRenderer'' x)"
  shows "\<exists>e. collect_ids (JArr items) = Inl e \<and> (e = KeyError \<or> e = TypeError)"
proof -
  from append_ids_fails [OF assms(1), of "[]"] obtain e1 acc1
    where 1: "append_ids ''videoRenderer'' items [] = (Some e1, acc1)"
      and e1: "e1 = KeyError \<or> e1 = TypeError" by blast
  from append_ids_fails [OF assms(2), of acc1] obtain e2 acc2
    where 2: "append_ids ''reelItemRenderer'' items acc1 = (Some e2, acc2)"
      and e2: "e2 = KeyError \<or> e2 = TypeError" by blast
  from e1 have "caught3 e1" by auto
  with 1 2 have "collect_ids (JArr items) = Inl e2"
    by (simp add: collect_ids_def loop_ids_def)
  with e2 show ?thesis by blast
qed

text \<open>
  One item that neither loop can read, among full-video items: the first loop stops at
  it, and the second loop raises at the first item of the list.
\<close>

lemma collect_ids_bad_among_videos:
  assumes others: "\<forall>x\<in>set (pre @ post). full_video_item x"
      and v: "isl (video_id ''videoRenderer'' bad)"
      and r: "isl (video_id ''reelItemRenderer'' bad)"
  shows "collect_ids (JArr (pre @ [bad] @ post)) =
           Inl (if pre = [] then projl (video_id ''reelItemRenderer'' bad) else KeyError)"
proof -
  from others have pre_ok: "\<forall>x\<in>set pre. \<not> isl (video_id ''videoRenderer'' x)"
    by (simp add: full_video_item_def)
  from v obtain e1 where e1: "video_id ''videoRenderer'' bad = Inl e1"
    by (cases "video_id ''videoRenderer'' bad") auto
  then have c: "caught3 e1" using video_id_error by fastforce
  have first: "append_ids ''videoRenderer'' (pre @ [bad] @ post) []
                 = (Some e1, map (watch_url ''videoRenderer'') pre)"
    using e1 by (simp add: append_ids_prefix_ok [OF pre_ok])
  show ?thesis
  proof (cases pre)
    case Nil
    have "append_ids ''reelItemRenderer'' ([bad] @ post) []
            = (Some (projl (video_id ''reelItemRenderer'' bad)), [])"
      using append_ids_first_fails [OF r] by simp
    with first c Nil show ?thesis
      by (simp add: collect_ids_def loop_ids_def del: append_ids.simps)
  next
    case (Cons x pre')
    with others have "video_id ''reelItemRenderer'' x = Inl KeyError"
      by (simp add: full_video_item_reel)
    with first c Cons show ?thesis
      by (simp add: collect_ids_def loop_ids_def)
  qed
qed

text \<open>
  The same among short-form items: the first loop stops at the first item of the list
  with nothing appended, and the second loop raises at the item it cannot read.
\<close>

lemma collect_ids_bad_among_shorts:
  assumes others: "\<forall>x\<in>set (pre @ post). short_form_item x"
      and v: "isl (video_id ''videoRenderer'' bad)"
      and r: "isl (video_id ''reelItemRenderer'' bad)"
  shows "collect_ids (JArr (pre @ [bad] @ post)) = Inl (projl (video_id ''reelItemRenderer'' bad))"
proof -
  from others have pre_ok: "\<forall>x\<in>set pre. \<not> isl (video_id ''reelItemRenderer'' x)"
    by (simp add: short_form_item_def)
  have "isl (video_id ''videoRenderer'' (hd (pre @ [bad] @ post)))"
    using others v by (cases pre) (simp_all add: short_form_item_video)
  from append_ids_first_fails [OF this, of "tl (pre @ [bad] @ post)" "[]"]
  obtain e1 where first: "append_ids ''videoRenderer'' (pre @ [bad] @ post) [] = (Some e1, [])"
    and e1: "e1 = projl (video_id ''videoRenderer'' (hd (pre @ [bad] @ post)))"
    by (cases pre) simp_all
  have "\<exists>x\<in>set (pre @ [bad] @ post). isl (video_id ''videoRenderer'' x)"
    using v by auto
  from append_ids_fails [OF this, of "[]"] first have c: "caught3 e1" by auto
  have "append_ids ''reelItemRenderer'' ([bad] @ post) acc
          = (Some (projl (video_id ''reelItemRenderer'' bad)), acc)" for acc
    using append_ids_first_fails [OF r] by simp
  then have second: "append_ids ''reelItemRenderer'' (pre @ [bad] @ post) []
          = (Some (projl (video_id ''reelItemRenderer'' bad)),
             map (watch_url ''reelItemRenderer'') pre)"
    by (simp add: append_ids_prefix_ok [OF pre_ok] del: append_ids.simps)
  from first c second show ?thesis
    by (simp add: collect_ids_def loop_ids_def del: append_ids.simps)
qed

text \<open>
  A loop appends the watch paths of the items up to the first one it cannot read, in the
  order of the items, and raises exactly when there is such an item.
\<close>

lemma append_ids_snd:
  "snd (append_ids r xs acc)
     = acc @ map (watch_url r) (takeWhile (\<lambda>x. \<not> isl (video_id r x)) xs)"
proof (induction xs arbitrary: acc)
  case Nil
  show ?case by simp
next
  case (Cons x xs)
  show ?case
  proof (cases "video_id r x")
    case (Inl e)
    then show ?thesis by simp
  next
    case (Inr v)
    with Cons.IH [of "acc @ [''/watch?v='' @ py_format v]"] show ?thesis
      by (simp add: watch_url_def)
  qed
qed

lemma append_ids_fst:
  "fst (append_ids r xs acc) = None \<longleftrightarrow> (\<forall>x\<in>set xs. \<not> isl (video_id r x))"
proof (induction xs arbitrary: acc)
  case Nil
  show ?case by simp
next
  case (Cons x xs)
  show ?case
  proof (cases "video_id r x")
    case (Inl e)
    then show ?thesis by simp
  next
    case (Inr v)
    with Cons.IH [of "acc @ [''/watch?v='' @ py_format v]"] show ?thesis
      by simp
  qed
qed

text \<open>
  What the two loops leave in \<^verbatim>\<open>videos_url\<close> when no exception leaves them: the watch
  paths of all the items under \<^verbatim>\<open>videoRenderer\<close>, or, after a failure of the first loop,
  what it had appended followed by the watch paths of all the items under
  \<^verbatim>\<open>reelItemRenderer\<close>; in both cases in the order of the items.
\<close>

lemma collect_ids_in_item_order:
  assumes "collect_ids (JArr items) = Inr urls"
  shows "urls = map (watch_url ''videoRenderer'')
                  (takeWhile (\<lambda>x. \<not> isl (video_id ''videoRenderer'' x)) items)
                @ (if \<forall>x\<in>set items. \<not> isl (video_id ''videoRenderer'' x) then []
                   else map (watch_url ''reelItemRenderer'') items)"
proof (cases "append_ids ''videoRenderer'' items []")
  case (Pair o1 acc1)
  have acc1: "acc1 = map (watch_url ''videoRenderer'')
                  (takeWhile (\<lambda>x. \<not> isl (video_id ''videoRenderer'' x)) items)"
    using append_ids_snd [of "''videoRenderer''" items "[]"] Pair by simp
  have o1: "o1 = None \<longleftrightarrow> (\<forall>x\<in>set items. \<not> isl (video_id ''videoRenderer'' x))"
    using append_ids_fst [of "''videoRenderer''" items "[]"] Pair by simp
  show ?thesis
  proof (cases o1)
    case None
    with assms Pair have "urls = acc1"
      by (simp add: collect_ids_def loop_ids_def)
    with None o1 acc1 show ?thesis by simp
  next
    case (Some e)
    obtain o2 acc2 where 2: "append_ids ''reelItemRenderer'' items acc1 = (o2, acc2)"
      by (cases "append_ids ''reelItemRenderer'' items acc1")
    from assms Pair Some 2 have "o2 = None" and u: "urls = acc2"
      by (auto simp: collect_ids_def loop_ids_def split: if_splits option.splits)
    with append_ids_fst [of "''reelItemRenderer''" items acc1] 2
    have all: "\<forall>x\<in>set items. \<not> isl (video_id ''reelItemRenderer'' x)" by simp
    then have "takeWhile (\<lambda>x. \<not> isl (video_id ''reelItemRenderer'' x)) items = items"
      by (simp add: takeWhile_eq_all_conv)
    with append_ids_snd [of "''reelItemRenderer''" items acc1] 2
    have "acc2 = acc1 @ map (watch_url ''reelItemRenderer'') items" by simp
    with u acc1 Some o1 show ?thesis by auto
  qed
qed

subsection \<open>Removing repeats\<close>

lemma set_uniqueify_seen: "set (uniqueify_seen seen xs) = set xs - set seen"
  by (induction xs arbitrary: seen) auto

lemma distinct_uniqueify_seen: "distinct (uniqueify_seen seen xs)"
  by (induction xs arbitrary: seen) (auto simp: set_uniqueify_seen)

lemma uniqueify_seen_distinct:
  "distinct ys \<Longrightarrow> set ys \<inter> set seen = {} \<Longrightarrow> uniqueify_seen seen ys = ys"
  by (induction ys arbitrary: seen) auto

lemma first_index_Cons:
  "first_index (x # xs) y = (if y = x then 0 else Suc (first_index xs y))"
  by (simp add: first_index_def)

lemma sorted_uniqueify_seen:
  "sorted_wrt (\<lambda>a b. first_index xs a < first_index xs b) (uniqueify_seen seen xs)"
proof (induction xs arbitrary: seen)
  case Nil
  show ?case by simp
next
  case (Cons x xs)
  have shift: "sorted_wrt (\<lambda>a b. first_index (x # xs) a < first_index (x # xs) b) ys"
    if "sorted_wrt (\<lambda>a b. first_index xs a < first_index xs b) ys" and "x \<notin> set ys" for ys
    using that by (induction ys) (auto simp: first_index_Cons)
  show ?case
  proof (cases "x \<in> set seen")
    case True
    then have "x \<notin> set (uniqueify_seen seen xs)"
      by (simp add: set_uniqueify_seen)
    with Cons.IH [of seen] True show ?thesis
      by (simp add: shift)
  next
    case False
    have notin: "x \<notin> set (uniqueify_seen (x # seen) xs)"
      by (simp add: set_uniqueify_seen)
    have "\<forall>y\<in>set (uniqueify_seen (x # seen) xs). first_index (x # xs) x < first_index (x # xs) y"
      using notin by (auto simp: first_index_Cons)
    with Cons.IH [of "x # seen"] notin False show ?thesis
      by (simp add: shift)
  qed
qed

lemma extract_located_distinct: "extract_located videos = Inr (ids, tok) \<Longrightarrow> distinct ids"
  by (auto simp: extract_located_def uniqueify_def distinct_uniqueify_seen split: sum.splits)

section \<open>The claims\<close>

subsection \<open>C1: a document of no known shape\<close>

text \<open>
  Claim C1 says that every document that matches none of the three shapes gives the empty
  page \<open>([], None)\<close> after a logged diagnostic, without an exception.  On a page whose
  only tab has a number where the url is expected, none of the three blocks succeeds,
  yet nothing is logged and nothing returned: \<^verbatim>\<open>tab_url.rsplit\<close> raises \<^verbatim>\<open>AttributeError\<close>,
  which \<^verbatim>\<open>except (KeyError, IndexError, TypeError)\<close> does not catch, so the exception
  leaves \<^verbatim>\<open>_extract_videos\<close>, whatever the channel object.
\<close>

theorem numeric_tab_url_raises:
  "full_page self numeric_url_page = Inl AttributeError
   \<and> wrapped_continuation numeric_url_page = Inl KeyError
   \<and> bare_continuation numeric_url_page = Inl KeyError
   \<and> extract_videos self numeric_url_page = (Inl AttributeError, self, [])"
  by (simp add: example_defs model_defs)

subsection \<open>C2: neither renderer applies\<close>

text \<open>
  Claim C2 as amended: when the items that remain after the continuation marker was
  stripped include one the full-video path cannot read and one the short-form path cannot
  read, \<^verbatim>\<open>_extract_videos\<close> raises the \<^verbatim>\<open>KeyError\<close> or \<^verbatim>\<open>TypeError\<close> of the second loop;
  it returns neither identifiers nor the continuation token, and logs nothing.
\<close>

theorem neither_path_raises:
  assumes "locate self d = Found videos self'"
      and "strip_continuation videos = Inr (tok, JArr items)"
      and "\<exists>x\<in>set items. isl (video_id ''videoRenderer'' x)"
      and "\<exists>x\<in>set items. isl (video_id ''reelItemRenderer'' x)"
  shows "\<exists>e. extract_videos self d = (Inl e, self', []) \<and> (e = KeyError \<or> e = TypeError)"
proof -
  from collect_ids_both_fail [OF assms(3,4)] obtain e
    where "collect_ids (JArr items) = Inl e" and "e = KeyError \<or> e = TypeError" by blast
  with assms(1,2) show ?thesis
    by (simp add: extract_videos_def extract_located_def)
qed

theorem neither_path_raises_witness:
  "locate example_channel unknown_page
     = Found (JArr [item ''playlistRenderer'' ''p'', marker_item ''TOKEN'']) example_channel
   \<and> strip_continuation (JArr [item ''playlistRenderer'' ''p'', marker_item ''TOKEN''])
       = Inr (JStr ''TOKEN'', JArr [item ''playlistRenderer'' ''p''])
   \<and> (\<exists>e. extract_videos example_channel unknown_page = (Inl e, example_channel, [])
          \<and> (e = KeyError \<or> e = TypeError))"
proof -
  have l: "locate example_channel unknown_page
     = Found (JArr [item ''playlistRenderer'' ''p'', marker_item ''TOKEN'']) example_channel"
    by (simp add: example_defs model_defs)
  have s: "strip_continuation (JArr [item ''playlistRenderer'' ''p'', marker_item ''TOKEN''])
       = Inr (JStr ''TOKEN'', JArr [item ''playlistRenderer'' ''p''])"
    by (simp add: example_defs model_defs)
  have v: "\<exists>x\<in>set [item ''playlistRenderer'' ''p'']. isl (video_id ''videoRenderer'' x)"
    by (simp add: example_defs model_defs)
  have r: "\<exists>x\<in>set [item ''playlistRenderer'' ''p'']. isl (video_id ''reelItemRenderer'' x)"
    by (simp add: example_defs model_defs)
  from neither_path_raises [OF l s v r] l s show ?thesis by simp
qed

text \<open>
  The claim as stated fails on a bare continuation with one item of a third renderer kind
  and a marker: the call raises \<^verbatim>\<open>KeyError\<close> instead of returning \<open>([], TOKEN)\<close>.
\<close>

theorem neither_path_counterexample:
  "locate example_channel unknown_page
     = Found (JArr [item ''playlistRenderer'' ''p'', marker_item ''TOKEN'']) example_channel
   \<and> isl (video_id ''videoRenderer'' (item ''playlistRenderer'' ''p''))
   \<and> isl (video_id ''reelItemRenderer'' (item ''playlistRenderer'' ''p''))
   \<and> extract_videos example_channel unknown_page = (Inl KeyError, example_channel, [])
   \<and> extract_videos example_channel unknown_page
       \<noteq> (Inr ([], JStr ''TOKEN''), example_channel, [])"
  by (simp add: example_defs model_defs)

subsection \<open>C3: one item without its identifier\<close>

text \<open>
  Claim C3 as amended.  Take a located list made of items, then one item that can be
  read under neither renderer, then items again, and at its end at most one continuation
  marker, where every item other than the unreadable one and the marker is a full-video
  item, or every such item is a short-form item, and where the unreadable item, when it
  is the last of the list, raises \<^verbatim>\<open>KeyError\<close> on the chain of lines 257 to 259.  Then
  no item is skipped and nothing is logged: \<^verbatim>\<open>_extract_videos\<close> raises and returns no
  identifier.  The exception is the \<^verbatim>\<open>KeyError\<close> of the first item of the list under
  \<^verbatim>\<open>reelItemRenderer\<close> when that item is a full-video item before the unreadable one,
  and otherwise the exception the unreadable item raises under \<^verbatim>\<open>reelItemRenderer\<close>.
\<close>

theorem one_bad_item_raises:
  assumes "locate self d = Found (JArr (pre @ [bad] @ post @ trailer)) self'"
      and "trailer = [] \<or> (\<exists>m. trailer = [m] \<and> continuation_marker m)"
      and "(\<forall>x\<in>set (pre @ post). full_video_item x) \<or> (\<forall>x\<in>set (pre @ post). short_form_item x)"
      and "isl (video_id ''videoRenderer'' bad)"
      and "isl (video_id ''reelItemRenderer'' bad)"
      and "post = [] \<and> trailer = [] \<longrightarrow> marker_token bad = Inl KeyError"
  shows "extract_videos self d =
           (Inl (if pre \<noteq> [] \<and> full_video_item (hd pre) then KeyError
                 else projl (video_id ''reelItemRenderer'' bad)),
            self', [])"
proof -
  from strip_continuation_around_bad [OF assms(2,3,6)] obtain tok
    where s: "strip_continuation (JArr (pre @ [bad] @ post @ trailer))
                = Inr (tok, JArr (pre @ [bad] @ post))" by blast
  have "collect_ids (JArr (pre @ [bad] @ post)) =
          Inl (if pre \<noteq> [] \<and> full_video_item (hd pre) then KeyError
               else projl (video_id ''reelItemRenderer'' bad))"
  proof (cases "\<forall>x\<in>set (pre @ post). full_video_item x")
    case True
    then have "pre \<noteq> [] \<Longrightarrow> full_video_item (hd pre)"
      by (cases pre) simp_all
    with collect_ids_bad_among_videos [OF True assms(4,5)] show ?thesis
      by auto
  next
    case False
    with assms(3) have shorts: "\<forall>x\<in>set (pre @ post). short_form_item x" by blast
    then have "pre \<noteq> [] \<Longrightarrow> \<not> full_video_item (hd pre)"
      by (cases pre) (auto simp: full_video_item_def dest: short_form_item_video)
    with collect_ids_bad_among_shorts [OF shorts assms(4,5)] show ?thesis
      by auto
  qed
  with assms(1) s show ?thesis
    by (simp add: extract_videos_def extract_located_def)
qed

text \<open>
  Two instances: the unreadable item between two videos, before a marker; and the
  unreadable item as the last item of a list without a marker.
\<close>

theorem one_bad_item_raises_witness:
  "locate example_channel broken_item_page
     = Found (JArr ([item ''videoRenderer'' ''a''] @ [item_without_id ''videoRenderer'']
                     @ [item ''videoRenderer'' ''b''] @ [marker_item ''TOKEN''])) example_channel
   \<and> continuation_marker (marker_item ''TOKEN'')
   \<and> full_video_item (item ''videoRenderer'' ''a'')
   \<and> full_video_item (item ''videoRenderer'' ''b'')
   \<and> isl (video_id ''videoRenderer'' (item_without_id ''videoRenderer''))
   \<and> isl (video_id ''reelItemRenderer'' (item_without_id ''videoRenderer''))
   \<and> extract_videos example_channel broken_item_page = (Inl KeyError, example_channel, [])
   \<and> locate example_channel
        (bare_doc [item ''reelItemRenderer'' ''s'', item_without_id ''videoRenderer''])
       = Found (JArr ([item ''reelItemRenderer'' ''s''] @ [item_without_id ''videoRenderer'']
                       @ [] @ [])) example_channel
   \<and> short_form_item (item ''reelItemRenderer'' ''s'')
   \<and> marker_token (item_without_id ''videoRenderer'') = Inl KeyError
   \<and> extract_videos example_channel
        (bare_doc [item ''reelItemRenderer'' ''s'', item_without_id ''videoRenderer''])
       = (Inl KeyError, example_channel, [])"
proof -
  let ?a = "item ''videoRenderer'' ''a''" and ?b = "item ''videoRenderer'' ''b''"
  let ?s = "item ''reelItemRenderer'' ''s''"
  let ?bad = "item_without_id ''videoRenderer''" and ?m = "marker_item ''TOKEN''"
  have l: "locate example_channel broken_item_page
             = Found (JArr ([?a] @ [?bad] @ [?b] @ [?m])) example_channel"
    by (simp add: example_defs model_defs)
  have cm: "continuation_marker ?m"
    by (simp add: example_defs model_defs continuation_marker_def)
  then have t: "[?m] = [] \<or> (\<exists>m. [?m] = [m] \<and> continuation_marker m)"
    by simp
  have fa: "full_video_item ?a" and fb: "full_video_item ?b"
    by (simp_all add: example_defs model_defs full_video_item_def)
  then have o: "(\<forall>x\<in>set ([?a] @ [?b]). full_video_item x)
                \<or> (\<forall>x\<in>set ([?a] @ [?b]). short_form_item x)"
    by simp
  have v: "isl (video_id ''videoRenderer'' ?bad)"
    by (simp add: example_defs model_defs)
  have r: "isl (video_id ''reelItemRenderer'' ?bad)"
    by (simp add: example_defs model_defs)
  have pr: "projl (video_id ''reelItemRenderer'' ?bad) = KeyError"
    by (simp add: example_defs model_defs)
  have n: "[?b] = [] \<and> [?m] = [] \<longrightarrow> marker_token ?bad = Inl KeyError"
    by simp
  have 1: "extract_videos example_channel broken_item_page = (Inl KeyError, example_channel, [])"
    using one_bad_item_raises [OF l t o v r n] fa by simp
  have l2: "locate example_channel (bare_doc [?s, ?bad])
              = Found (JArr ([?s] @ [?bad] @ [] @ [])) example_channel"
    by (simp add: example_defs model_defs)
  have t2: "([]::json list) = [] \<or> (\<exists>m. ([]::json list) = [m] \<and> continuation_marker m)"
    by simp
  have fs: "short_form_item ?s"
    by (simp add: example_defs model_defs short_form_item_def)
  then have o2: "(\<forall>x\<in>set ([?s] @ []). full_video_item x)
                \<or> (\<forall>x\<in>set ([?s] @ []). short_form_item x)"
    by simp
  have mt: "marker_token ?bad = Inl KeyError"
    by (simp add: example_defs model_defs)
  then have n2: "([]::json list) = [] \<and> ([]::json list) = [] \<longrightarrow> marker_token ?bad = Inl KeyError"
    by simp
  have nf: "\<not> full_video_item ?s"
    by (simp add: example_defs model_defs full_video_item_def)
  have 2: "extract_videos example_channel (bare_doc [?s, ?bad])
             = (Inl KeyError, example_channel, [])"
    using one_bad_item_raises [OF l2 t2 o2 v r n2] nf pr by simp
  from 1 2 l l2 cm fa fb fs v r mt show ?thesis by simp
qed

text \<open>
  The claim as stated fails on a continuation of three videos whose second item has no
  \<^verbatim>\<open>videoId\<close>: the call raises \<^verbatim>\<open>KeyError\<close> and logs nothing, instead of returning the
  identifiers of the first and the third item.
\<close>

theorem one_bad_item_counterexample:
  "full_video_item (item ''videoRenderer'' ''a'') \<and> full_video_item (item ''videoRenderer'' ''b'')
   \<and> video_id ''videoRenderer'' (item_without_id ''videoRenderer'') = Inl KeyError
   \<and> extract_videos example_channel broken_item_page = (Inl KeyError, example_channel, [])
   \<and> fst (extract_videos example_channel broken_item_page)
       \<noteq> Inr ([''/watch?v=a'', ''/watch?v=b''], JStr ''TOKEN'')"
  by (simp add: example_defs model_defs full_video_item_def)

subsection \<open>C4: the trailing continuation marker\<close>

text \<open>
  Claim C4 says that a list whose last item is not a continuation marker gives no
  continuation token and loses no item.  On a list whose last item is \<^verbatim>\<open>null\<close>, which
  is no marker, lines 257 to 259 raise \<^verbatim>\<open>TypeError\<close>; \<^verbatim>\<open>except (KeyError, IndexError)\<close>
  does not catch it, and the exception leaves \<^verbatim>\<open>_extract_videos\<close>.
\<close>

theorem null_last_item_raises:
  "\<not> continuation_marker JNull
   \<and> locate example_channel null_last_page
       = Found (JArr [item ''videoRenderer'' ''a'', JNull]) example_channel
   \<and> strip_continuation (JArr [item ''videoRenderer'' ''a'', JNull]) = Inl TypeError
   \<and> extract_videos example_channel null_last_page = (Inl TypeError, example_channel, [])"
  by (simp add: example_defs model_defs continuation_marker_def)

subsection \<open>C5: a full page without visitor data\<close>

text \<open>
  Claim C5 as amended: when the tab list and the grid of the active tab are found but the
  chain to \<^verbatim>\<open>visitorData\<close> raises, the first block fails as a whole.  The grid's items are
  not used and \<^verbatim>\<open>_visitor_data\<close> stays as it was; the document, an object, fails the
  wrapped continuation shape and is read under the bare one, and when that fails too the
  result is \<open>([], None)\<close> with the exception logged.
\<close>

theorem full_page_without_visitor_data:
  assumes "active_tab_videos self d = Inr videos"
      and "visitor_data_node d = Inl e"
  shows "extract_videos self d =
           (case bare_continuation d of
              Inr important_content \<Rightarrow> (extract_located important_content, self, [])
            | Inl p \<Rightarrow> (Inr ([], JNull), self, [p]))"
proof -
  from assms(1) obtain kvs where d: "d = JObj kvs"
    using active_tab_videos_obj by blast
  have fp: "full_page self d = Inl e"
    using assms by (simp add: full_page_def)
  have c: "caught3 e"
    using assms(2) by (rule visitor_data_node_caught3)
  have w: "wrapped_continuation d = Inl KeyError"
    using d by (simp add: wrapped_continuation_obj)
  show ?thesis
  proof (cases "bare_continuation d")
    case (Inl p)
    then have "caught3 p" by (rule bare_continuation_caught3)
    with Inl fp c w show ?thesis
      by (simp add: extract_videos_def locate_def)
  next
    case (Inr content)
    with fp c w show ?thesis
      by (simp add: extract_videos_def locate_def)
  qed
qed

theorem full_page_without_visitor_data_witness:
  "active_tab_videos example_channel (videos_page [])
     = Inr (JArr [item ''videoRenderer'' ''a'', item ''videoRenderer'' ''b'',
                  item ''videoRenderer'' ''a'', marker_item ''TOKEN''])
   \<and> visitor_data_node (videos_page []) = Inl KeyError
   \<and> bare_continuation (videos_page []) = Inl KeyError
   \<and> extract_videos example_channel (videos_page []) = (Inr ([], JNull), example_channel, [KeyError])"
proof -
  have a: "active_tab_videos example_channel (videos_page [])
     = Inr (JArr [item ''videoRenderer'' ''a'', item ''videoRenderer'' ''b'',
                  item ''videoRenderer'' ''a'', marker_item ''TOKEN''])"
    by (simp add: example_defs model_defs)
  have v: "visitor_data_node (videos_page []) = Inl KeyError"
    by (simp add: example_defs model_defs)
  have b: "bare_continuation (videos_page []) = Inl KeyError"
    by (simp add: example_defs model_defs)
  from full_page_without_visitor_data [OF a v] a v b show ?thesis by simp
qed

text \<open>
  The claim as stated fails on the videos page without a \<^verbatim>\<open>responseContext\<close>: the tab
  and its grid of three videos are there, and the call returns no identifier.
\<close>

theorem full_page_without_visitor_data_counterexample:
  "active_tab_videos example_channel (videos_page [])
     = Inr (JArr [item ''videoRenderer'' ''a'', item ''videoRenderer'' ''b'',
                  item ''videoRenderer'' ''a'', marker_item ''TOKEN''])
   \<and> visitor_data_node (videos_page []) = Inl KeyError
   \<and> extract_videos example_channel (videos_page []) = (Inr ([], JNull), example_channel, [KeyError])
   \<and> fst (extract_videos example_channel (videos_page []))
       \<noteq> Inr ([''/watch?v=a'', ''/watch?v=b''], JStr ''TOKEN'')"
  by (simp add: example_defs model_defs)

subsection \<open>C6: a page of short-form items\<close>

text \<open>
  Claim C6: when the located list consists of short-form items only, the loop under
  \<^verbatim>\<open>videoRenderer\<close> fails at the first item with nothing appended, the loop under
  \<^verbatim>\<open>reelItemRenderer\<close> then reads every item in order, and \<^verbatim>\<open>_extract_videos\<close> returns
  those watch paths, in that order and with repeats removed, with no continuation token.
  When the identifiers are all different the result is the list of the second loop itself.
\<close>

theorem short_form_page:
  assumes "locate self d = Found (JArr items) self'"
      and "\<forall>x\<in>set items. short_form_item x"
  shows "append_ids ''videoRenderer'' items [] = (if items = [] then None else Some KeyError, [])
         \<and> append_ids ''reelItemRenderer'' items []
             = (None, map (watch_url ''reelItemRenderer'') items)
         \<and> extract_videos self d
             = (Inr (uniqueify (map (watch_url ''reelItemRenderer'') items), JNull), self', [])
         \<and> (distinct (map (watch_url ''reelItemRenderer'') items) \<longrightarrow>
              extract_videos self d
                = (Inr (map (watch_url ''reelItemRenderer'') items, JNull), self', []))"
proof -
  note v = append_ids_video_on_short_forms [OF assms(2)]
  note r = append_ids_reel_on_short_forms [OF assms(2)]
  have c: "collect_ids (JArr items) = Inr (map (watch_url ''reelItemRenderer'') items)"
    using v r by (cases "items = []") (simp_all add: collect_ids_def loop_ids_def)
  have e: "extract_videos self d
             = (Inr (uniqueify (map (watch_url ''reelItemRenderer'') items), JNull), self', [])"
    using assms(1) c strip_continuation_short_forms [OF assms(2)]
    by (simp add: extract_videos_def extract_located_def)
  have u: "uniqueify xs = xs" if "distinct xs" for xs :: "string list"
    using uniqueify_seen_distinct [of xs "[]"] that by (simp add: uniqueify_def)
  from v r e u show ?thesis by simp
qed

theorem short_form_page_witness:
  "locate example_channel shorts_page
     = Found (JArr [item ''reelItemRenderer'' ''s1'', item ''reelItemRenderer'' ''s2'',
                    item ''reelItemRenderer'' ''s1'']) example_channel
   \<and> short_form_item (item ''reelItemRenderer'' ''s1'')
   \<and> short_form_item (item ''reelItemRenderer'' ''s2'')
   \<and> extract_videos example_channel shorts_page
       = (Inr ([''/watch?v=s1'', ''/watch?v=s2''], JNull), example_channel, [])"
proof -
  let ?items = "[item ''reelItemRenderer'' ''s1'', item ''reelItemRenderer'' ''s2'',
                    item ''reelItemRenderer'' ''s1'']"
  have l: "locate example_channel shorts_page = Found (JArr ?items) example_channel"
    by (simp add: example_defs model_defs)
  have s: "short_form_item (item ''reelItemRenderer'' ''s1'')"
          "short_form_item (item ''reelItemRenderer'' ''s2'')"
    by (simp_all add: example_defs model_defs short_form_item_def)
  then have a: "\<forall>x\<in>set ?items. short_form_item x" by simp
  have w: "uniqueify (map (watch_url ''reelItemRenderer'') ?items)
             = [''/watch?v=s1'', ''/watch?v=s2'']"
    by (simp add: example_defs model_defs watch_url_def)
  from short_form_page [OF l a] l s w show ?thesis by simp
qed

subsection \<open>C7: removing repeats keeps the order of first occurrence\<close>

text \<open>
  Claim C7.  The list \<^verbatim>\<open>uniqueify\<close> returns has every element of its input exactly once
  and nothing else, ordered by the position at which each first occurs in the input, and
  whatever list of identifiers \<^verbatim>\<open>_extract_videos\<close> returns has no repeats.  Whenever
  \<^verbatim>\<open>_extract_videos\<close> returns identifiers from a located list, they are \<^verbatim>\<open>uniqueify\<close> of
  the sequence the loops collected from the items that remained after the continuation
  step: every identifier of that sequence exactly once, in the order of first occurrence.
  That sequence itself follows the order of the items: the watch paths of all the items
  under \<^verbatim>\<open>videoRenderer\<close>, or what the first loop appended before it failed followed by
  the watch paths of all the items under \<^verbatim>\<open>reelItemRenderer\<close>.
\<close>

theorem uniqueify_first_occurrence:
  "distinct (uniqueify xs) \<and> set (uniqueify xs) = set xs
   \<and> sorted_wrt (\<lambda>a b. first_index xs a < first_index xs b) (uniqueify xs)
   \<and> (case fst (extract_videos self d) of Inl e \<Rightarrow> True | Inr (ids, tok) \<Rightarrow> distinct ids)
   \<and> (locate self d = Found videos self' \<and> extract_videos self d = (Inr (ids, tok), s, log) \<longrightarrow>
        (\<exists>videos' urls.
           strip_continuation videos = Inr (tok, videos') \<and> collect_ids videos' = Inr urls
           \<and> ids = uniqueify urls
           \<and> distinct ids \<and> set ids = set urls
           \<and> sorted_wrt (\<lambda>a b. first_index urls a < first_index urls b) ids
           \<and> (\<forall>items. videos' = JArr items \<longrightarrow>
                 urls = map (watch_url ''videoRenderer'')
                          (takeWhile (\<lambda>x. \<not> isl (video_id ''videoRenderer'' x)) items)
                        @ (if \<forall>x\<in>set items. \<not> isl (video_id ''videoRenderer'' x) then []
                           else map (watch_url ''reelItemRenderer'') items))))"
proof -
  have u: "distinct (uniqueify xs) \<and> set (uniqueify xs) = set xs
           \<and> sorted_wrt (\<lambda>a b. first_index xs a < first_index xs b) (uniqueify xs)"
    by (simp add: uniqueify_def distinct_uniqueify_seen set_uniqueify_seen sorted_uniqueify_seen)
  have r: "case fst (extract_videos self d) of Inl e \<Rightarrow> True | Inr (ids, tok) \<Rightarrow> distinct ids"
    by (cases "locate self d")
       (auto simp: extract_videos_def split: sum.splits dest: extract_located_distinct)
  have t: "\<exists>videos' urls.
           strip_continuation videos = Inr (tok, videos') \<and> collect_ids videos' = Inr urls
           \<and> ids = uniqueify urls
           \<and> distinct ids \<and> set ids = set urls
           \<and> sorted_wrt (\<lambda>a b. first_index urls a < first_index urls b) ids
           \<and> (\<forall>items. videos' = JArr items \<longrightarrow>
                 urls = map (watch_url ''videoRenderer'')
                          (takeWhile (\<lambda>x. \<not> isl (video_id ''videoRenderer'' x)) items)
                        @ (if \<forall>x\<in>set items. \<not> isl (video_id ''videoRenderer'' x) then []
                           else map (watch_url ''reelItemRenderer'') items))"
    if l: "locate self d = Found videos self'"
      and e: "extract_videos self d = (Inr (ids, tok), s, log)"
  proof -
    from l e have "extract_located videos = Inr (ids, tok)"
      by (simp add: extract_videos_def)
    then obtain videos' urls where st: "strip_continuation videos = Inr (tok, videos')"
      and c: "collect_ids videos' = Inr urls" and i: "ids = uniqueify urls"
      by (auto simp: extract_located_def split: sum.splits)
    have "distinct ids" and "set ids = set urls"
      and "sorted_wrt (\<lambda>a b. first_index urls a < first_index urls b) ids"
      using i by (simp_all add: uniqueify_def distinct_uniqueify_seen set_uniqueify_seen
          sorted_uniqueify_seen)
    moreover have "\<forall>items. videos' = JArr items \<longrightarrow>
                 urls = map (watch_url ''videoRenderer'')
                          (takeWhile (\<lambda>x. \<not> isl (video_id ''videoRenderer'' x)) items)
                        @ (if \<forall>x\<in>set items. \<not> isl (video_id ''videoRenderer'' x) then []
                           else map (watch_url ''reelItemRenderer'') items)"
      using c collect_ids_in_item_order by blast
    ultimately show ?thesis using st c i by blast
  qed
  from u r t show ?thesis by blast
qed

text \<open>
  On the videos page, with the videos a, b and a again before the marker: the loops
  collect three watch paths and the call returns the first two.
\<close>

theorem uniqueify_first_occurrence_witness:
  "uniqueify [''b'', ''a'', ''b'', ''c'', ''a''] = [''b'', ''a'', ''c'']
   \<and> distinct (uniqueify [''b'', ''a'', ''b'', ''c'', ''a''])
   \<and> set (uniqueify [''b'', ''a'', ''b'', ''c'', ''a'']) = set [''b'', ''a'', ''b'', ''c'', ''a'']
   \<and> locate example_channel (videos_page [response_context ''VD''])
       = Found (JArr [item ''videoRenderer'' ''a'', item ''videoRenderer'' ''b'',
                      item ''videoRenderer'' ''a'', marker_item ''TOKEN''])
           (example_channel\<lparr>priv_visitor_data := JStr ''VD''\<rparr>)
   \<and> extract_videos example_channel (videos_page [response_context ''VD''])
       = (Inr ([''/watch?v=a'', ''/watch?v=b''], JStr ''TOKEN''),
          example_channel\<lparr>priv_visitor_data := JStr ''VD''\<rparr>, [])
   \<and> collect_ids (JArr [item ''videoRenderer'' ''a'', item ''videoRenderer'' ''b'',
                         item ''videoRenderer'' ''a''])
       = Inr [''/watch?v=a'', ''/watch?v=b'', ''/watch?v=a'']
   \<and> (\<exists>videos' urls.
         strip_continuation (JArr [item ''videoRenderer'' ''a'', item ''videoRenderer'' ''b'',
                                   item ''videoRenderer'' ''a'', marker_item ''TOKEN''])
           = Inr (JStr ''TOKEN'', videos')
         \<and> collect_ids videos' = Inr urls
         \<and> [''/watch?v=a'', ''/watch?v=b''] = uniqueify urls
         \<and> sorted_wrt (\<lambda>a b. first_index urls a < first_index urls b)
             [''/watch?v=a'', ''/watch?v=b''])"
proof -
  let ?xs = "[''b'', ''a'', ''b'', ''c'', ''a'']"
  let ?vs = "JArr [item ''videoRenderer'' ''a'', item ''videoRenderer'' ''b'',
                   item ''videoRenderer'' ''a'', marker_item ''TOKEN'']"
  let ?c = "example_channel\<lparr>priv_visitor_data := JStr ''VD''\<rparr>"
  let ?ids = "[''/watch?v=a'', ''/watch?v=b'']"
  have l: "locate example_channel (videos_page [response_context ''VD'']) = Found ?vs ?c"
    by (simp add: example_defs model_defs)
  have e: "extract_videos example_channel (videos_page [response_context ''VD''])
             = (Inr (?ids, JStr ''TOKEN''), ?c, [])"
    by (simp add: example_defs model_defs)
  have c: "collect_ids (JArr [item ''videoRenderer'' ''a'', item ''videoRenderer'' ''b'',
                              item ''videoRenderer'' ''a''])
             = Inr [''/watch?v=a'', ''/watch?v=b'', ''/watch?v=a'']"
    by (simp add: example_defs model_defs)
  have q: "uniqueify ?xs = [''b'', ''a'', ''c'']"
    by (simp add: uniqueify_def)
  note t = uniqueify_first_occurrence
    [of ?xs example_channel "videos_page [response_context ''VD'']" ?vs ?c ?ids "JStr ''TOKEN''"
        ?c "[]"]
  from t have "distinct (uniqueify ?xs)" and "set (uniqueify ?xs) = set ?xs"
    by blast+
  moreover from t l e have "\<exists>videos' urls.
         strip_continuation ?vs = Inr (JStr ''TOKEN'', videos')
         \<and> collect_ids videos' = Inr urls
         \<and> ?ids = uniqueify urls
         \<and> sorted_wrt (\<lambda>a b. first_index urls a < first_index urls b) ?ids"
    by blast
  ultimately show ?thesis using l e c q by blast
qed

subsection \<open>C8: the empty list and the list of one marker\<close>

text \<open>
  Claim C8: when the located list is empty the result is \<open>([], None)\<close>, and when it holds
  a continuation marker and nothing else the result is the empty list with the marker's
  token.
\<close>

theorem edge_semantics:
  "(locate self d = Found (JArr []) self' \<longrightarrow>
      extract_videos self d = (Inr ([], JNull), self', []))
   \<and> (locate self d = Found (JArr [m]) self' \<and> marker_token m = Inr tok \<longrightarrow>
        extract_videos self d = (Inr ([], tok), self', []))"
proof -
  have "strip_continuation (JArr [m]) = Inr (tok, JArr [])" if "marker_token m = Inr tok"
    using strip_continuation_marker [of "[m]" tok] that by simp
  then show ?thesis
    by (simp add: extract_videos_def extract_located_def strip_continuation_empty
        collect_ids_def loop_ids_def uniqueify_def)
qed

theorem edge_semantics_witness:
  "locate example_channel (bare_doc []) = Found (JArr []) example_channel
   \<and> extract_videos example_channel (bare_doc []) = (Inr ([], JNull), example_channel, [])
   \<and> locate example_channel (wrapped_doc [marker_item ''TOKEN''])
       = Found (JArr [marker_item ''TOKEN'']) example_channel
   \<and> marker_token (marker_item ''TOKEN'') = Inr (JStr ''TOKEN'')
   \<and> extract_videos example_channel (wrapped_doc [marker_item ''TOKEN''])
       = (Inr ([], JStr ''TOKEN''), example_channel, [])"
proof -
  have l1: "locate example_channel (bare_doc []) = Found (JArr []) example_channel"
    by (simp add: example_defs model_defs)
  have l2: "locate example_channel (wrapped_doc [marker_item ''TOKEN''])
       = Found (JArr [marker_item ''TOKEN'']) example_channel"
    by (simp add: example_defs model_defs)
  have m: "marker_token (marker_item ''TOKEN'') = Inr (JStr ''TOKEN'')"
    by (simp add: example_defs model_defs)
  from edge_semantics [of example_channel "bare_doc []" example_channel]
       edge_semantics [of example_channel "wrapped_doc [marker_item ''TOKEN'']" example_channel
                          "marker_item ''TOKEN''" "JStr ''TOKEN''"]
       l1 l2 m
  show ?thesis by simp
qed

subsection \<open>C9: the request for the next page\<close>

text \<open>
  Claim C9: for every continuation token, the url is the browse endpoint followed by the
  formatted api key (the key itself when it is a string); the headers are the client name
  and the client version and nothing else; the body has the keys \<^verbatim>\<open>continuation\<close> and
  \<^verbatim>\<open>context\<close>, the first holding the token, the second one \<^verbatim>\<open>client\<close> block with the
  client name \<^verbatim>\<open>WEB\<close>, the stored visitor data (\<^verbatim>\<open>None\<close> when none was captured) and the
  fixed client version.
\<close>

theorem build_continuation_url_descriptor:
  "(case build_continuation_url yt_api_key self continuation of
      (url, headers, body) \<Rightarrow>
        url = ''https://www.youtube.com/youtubei/v1/browse?key='' @ py_format yt_api_key
        \<and> headers = [(''X-YouTube-Client-Name'', ''1''),
                      (''X-YouTube-Client-Version'', ''2.20200720.00.02'')]
        \<and> py_iter body = Inr [JStr ''continuation'', JStr ''context'']
        \<and> subscript body [K ''continuation''] = Inr (JStr continuation)
        \<and> (case subscript body [K ''context''] of
              Inr context \<Rightarrow> py_iter context = Inr [JStr ''client'']
            | Inl e \<Rightarrow> False)
        \<and> (case subscript body [K ''context'', K ''client''] of
              Inr client \<Rightarrow>
                py_iter client = Inr [JStr ''clientName'', JStr ''visitorData'', JStr ''clientVersion'']
            | Inl e \<Rightarrow> False)
        \<and> subscript body [K ''context'', K ''client'', K ''clientName''] = Inr (JStr ''WEB'')
        \<and> subscript body [K ''context'', K ''client'', K ''visitorData'']
            = Inr (priv_visitor_data self)
        \<and> subscript body [K ''context'', K ''client'', K ''clientVersion'']
            = Inr (JStr ''2.20200720.00.02''))
   \<and> fst (build_continuation_url (JStr k) self continuation)
       = ''https://www.youtube.com/youtubei/v1/browse?key='' @ k"
  by (simp add: build_continuation_url_def py_format_def)

subsection \<open>C10: what a call changes in the channel object\<close>

text \<open>
  Claim C10: after a call, whether it returned or raised, the channel object differs from
  the one before at most in \<^verbatim>\<open>_visitor_data\<close>; it differs only when the first block ran
  to its end, and then \<^verbatim>\<open>_visitor_data\<close> is the visitor data of the document; when the
  first block fails, as it does under both continuation shapes, the object is unchanged.
\<close>

theorem extract_videos_frame:
  assumes "extract_videos self d = (result, self', log)"
  shows "self' = self\<lparr>priv_visitor_data := priv_visitor_data self'\<rparr>
         \<and> (self' \<noteq> self \<longrightarrow> (\<exists>videos. full_page self d = Inr (videos, priv_visitor_data self')))
         \<and> (isl (full_page self d) \<longrightarrow> self' = self)
         \<and> (\<forall>videos vd. full_page self d = Inr (videos, vd) \<longrightarrow>
               self' = self\<lparr>priv_visitor_data := vd\<rparr>)"
proof (cases "locate self d")
  case (Uncaught e)
  with assms have "self' = self" by (simp add: extract_videos_def)
  moreover from Uncaught have "isl (full_page self d)"
    by (auto simp: locate_def split: sum.splits if_splits)
  ultimately show ?thesis by auto
next
  case (NotFound p)
  with assms have "self' = self" by (simp add: extract_videos_def)
  moreover from NotFound have "isl (full_page self d)"
    by (auto simp: locate_def split: sum.splits if_splits)
  ultimately show ?thesis by auto
next
  case (Found videos s)
  with assms have "s = self'" by (simp add: extract_videos_def)
  with Found locate_frame [of self d videos self'] show ?thesis by auto
qed

theorem extract_videos_frame_witness:
  "extract_videos example_channel (videos_page [response_context ''VD''])
     = (Inr ([''/watch?v=a'', ''/watch?v=b''], JStr ''TOKEN''),
        example_channel\<lparr>priv_visitor_data := JStr ''VD''\<rparr>, [])
   \<and> example_channel\<lparr>priv_visitor_data := JStr ''VD''\<rparr> \<noteq> example_channel
   \<and> (\<exists>videos. full_page example_channel (videos_page [response_context ''VD''])
         = Inr (videos, JStr ''VD''))
   \<and> extract_videos (example_channel\<lparr>priv_visitor_data := JStr ''VD''\<rparr>) shorts_page
       = (Inr ([''/watch?v=s1'', ''/watch?v=s2''], JNull),
          example_channel\<lparr>priv_visitor_data := JStr ''VD''\<rparr>, [])
   \<and> isl (full_page (example_channel\<lparr>priv_visitor_data := JStr ''VD''\<rparr>) shorts_page)"
proof -
  let ?c = "example_channel\<lparr>priv_visitor_data := JStr ''VD''\<rparr>"
  have 1: "extract_videos example_channel (videos_page [response_context ''VD''])
     = (Inr ([''/watch?v=a'', ''/watch?v=b''], JStr ''TOKEN''), ?c, [])"
    by (simp add: example_defs model_defs)
  have 2: "extract_videos ?c shorts_page = (Inr ([''/watch?v=s1'', ''/watch?v=s2''], JNull), ?c, [])"
    by (simp add: example_defs model_defs)
  have 3: "?c \<noteq> example_channel"
    by (simp add: example_channel_def)
  have 4: "isl (full_page ?c shorts_page)"
    by (simp add: example_defs model_defs)
  from extract_videos_frame [OF 1] extract_videos_frame [OF 2] 1 2 3 4 show ?thesis
    by simp
qed

end
